theory Spec2Isabelle
  imports Complex_Main
begin

section \<open>Python values, dictionaries and errors\<close>

text \<open>
  The values that travel through layer configurations: \<open>get_config\<close> returns a dictionary
  of such values, \<open>from_config\<close> consumes one. A dictionary keeps its items in insertion
  order, so it is an association list. \<open>PDict\<close> is a dictionary written out by value, as
  \<open>get_config\<close> builds it; \<open>PRef a\<close> is a reference to the dictionary object at address
  \<open>a\<close> of a store, which everyone who holds the reference shares and can change.
\<close>

datatype pyval =
    PNone
  | PBool bool
  | PInt int
  | PStr string
  | PList "pyval list"
  | PDict "(string \<times> pyval) list"
  | PRef nat

type_synonym pydict = "(string \<times> pyval) list"

datatype py_error = TypeError | ValueError | KeyError | IndexError

text \<open>\<open>d.get(k)\<close>: the value stored under a key, if any.\<close>

definition dict_get :: "pydict \<Rightarrow> string \<Rightarrow> pyval option" where
  "dict_get d k = map_of d k"

text \<open>\<open>d[k] = v\<close>: an existing key keeps its position, a new key goes to the end.\<close>

fun dict_set :: "pydict \<Rightarrow> string \<Rightarrow> pyval \<Rightarrow> pydict" where
  "dict_set [] k v = [(k, v)]"
| "dict_set ((k', v') # d) k v =
     (if k' = k then (k, v) # d else (k', v') # dict_set d k v)"

text \<open>\<open>dict(items)\<close> on a list of pairs: the pairs are stored from left to right, so a
  later pair overwrites the value of an earlier one with the same key.\<close>

definition dict_of_items :: "(string \<times> pyval) list \<Rightarrow> pydict" where
  "dict_of_items items = foldl (\<lambda>d (k, v). dict_set d k v) [] items"

text \<open>\<open>d.pop(k)\<close>: the value under the key and the dictionary without it; \<open>None\<close> is
  Python's \<open>KeyError\<close>.\<close>

fun dict_pop :: "pydict \<Rightarrow> string \<Rightarrow> (pyval \<times> pydict) option" where
  "dict_pop [] k = None"
| "dict_pop ((k', v') # d) k =
     (if k' = k then Some (v', d)
      else (case dict_pop d k of
              None \<Rightarrow> None
            | Some (v, d') \<Rightarrow> Some (v, (k', v') # d')))"

section \<open>Layers and recurrent cells\<close>

text \<open>
  The part of a layer object that the wrappers read and write: the \<open>built\<close> flag and the
  remaining instance attributes. \<open>AbstractRNNCell\<close> and the base layer class are not part
  of the wrapper module; their constructor and their \<open>get_config\<close> are parameters below.
\<close>

record layer =
  built :: bool
  attrs :: pydict

text \<open>What \<open>tf_inspect.getfullargspec\<close> reports for a callable.\<close>

record fullargspec =
  spec_args :: "string list"
  spec_varargs :: "string option"
  spec_varkw :: "string option"
  spec_kwonlyargs :: "string list"

type_synonym shape = "nat option list"

text \<open>
  A recurrent cell is an object of some class. The class gives the name, the classes it
  inherits from, the signature of \<open>call\<close> and the methods; the methods take the instance
  state. \<open>'t\<close> is the type of tensors, \<open>'s\<close> the type of recurrent states.
\<close>

record ('t, 's) cell_class =
  class_name :: string
  class_mro :: "string list"
  call_spec :: fullargspec
  call_impl :: "layer \<Rightarrow> 't \<Rightarrow> 's \<Rightarrow> pydict \<Rightarrow> py_error + ('t \<times> 's)"
  build_impl :: "layer \<Rightarrow> shape \<Rightarrow> py_error + layer"
  get_config_impl :: "layer \<Rightarrow> pydict"

record ('t, 's) rnn_cell =
  cell_cls :: "('t, 's) cell_class"
  cell_self :: layer

text \<open>The bound methods \<open>cell.call\<close>, \<open>cell.build\<close>, \<open>cell.get_config\<close>.\<close>

definition cell_call ::
  "('t, 's) rnn_cell \<Rightarrow> 't \<Rightarrow> 's \<Rightarrow> pydict \<Rightarrow> py_error + ('t \<times> 's)" where
  "cell_call c = call_impl (cell_cls c) (cell_self c)"

definition cell_build :: "('t, 's) rnn_cell \<Rightarrow> shape \<Rightarrow> py_error + ('t, 's) rnn_cell" where
  "cell_build c inputs_shape =
     (case build_impl (cell_cls c) (cell_self c) inputs_shape of
        Inl e \<Rightarrow> Inl e
      | Inr l \<Rightarrow> Inr (c\<lparr>cell_self := l\<rparr>))"

definition cell_get_config :: "('t, 's) rnn_cell \<Rightarrow> pydict" where
  "cell_get_config c = get_config_impl (cell_cls c) (cell_self c)"

text \<open>\<open>isinstance(cell, K)\<close>: \<open>K\<close> is among the classes of the cell's class.\<close>

definition isinstance :: "('t, 's) rnn_cell \<Rightarrow> string \<Rightarrow> bool" where
  "isinstance c k = (k \<in> set (class_mro (cell_cls c)))"

section \<open>The cell wrapper base class\<close>

text \<open>
  The attributes of a wrapper object that this module sets: the layer part it inherits,
  the wrapped cell and \<open>_expects_training_arg\<close>. The mixed-in wrapper classes add their
  own attributes, so the functions below accept any extension of the record.
\<close>

record ('t, 's) wrapper =
  layer_part :: layer
  cell :: "('t, 's) rnn_cell"
  expects_training_arg :: bool

text \<open>
  \<open>_RNNCellWrapper.__init__(self, cell, *args, **kwargs)\<close>. The constructor of the parent
  class, \<open>layer_init\<close>, receives the remaining arguments and may raise.
\<close>

definition RNNCellWrapper_init ::
  "(pyval list \<Rightarrow> pydict \<Rightarrow> py_error + layer) \<Rightarrow> ('t, 's) rnn_cell \<Rightarrow> pyval list \<Rightarrow> pydict
     \<Rightarrow> py_error + ('t, 's) wrapper" where
  "RNNCellWrapper_init layer_init c args kwargs =
     (case layer_init args kwargs of
        Inl e \<Rightarrow> Inl e
      | Inr l \<Rightarrow>
          (let cell_call_spec = call_spec (cell_cls c)
           in Inr \<lparr>layer_part = l, cell = c,
                   expects_training_arg =
                     (''training'' \<in> set (spec_args cell_call_spec)
                      \<or> spec_varkw cell_call_spec \<noteq> None)\<rparr>))"

text \<open>
  \<open>_RNNCellWrapper.call\<close>. The method \<open>_call_wrapped_cell\<close> is supplied by the wrapper
  class that is mixed in (dropout, residual, device), so it is the parameter \<open>cwc\<close>; it
  receives the wrapper, the inputs, the state, the function to call the cell with and the
  keyword arguments.
\<close>

definition RNNCellWrapper_call ::
  "(('t, 's, 'z) wrapper_scheme \<Rightarrow> 't \<Rightarrow> 's
       \<Rightarrow> ('t \<Rightarrow> 's \<Rightarrow> pydict \<Rightarrow> py_error + ('t \<times> 's)) \<Rightarrow> pydict \<Rightarrow> 'r)
     \<Rightarrow> ('t, 's, 'z) wrapper_scheme \<Rightarrow> 't \<Rightarrow> 's \<Rightarrow> pydict \<Rightarrow> 'r" where
  "RNNCellWrapper_call cwc self inputs state kwargs =
     cwc self inputs state (cell_call (cell self)) kwargs"

text \<open>\<open>_RNNCellWrapper.build\<close>: build the wrapped cell, then mark the wrapper built.\<close>

definition RNNCellWrapper_build ::
  "('t, 's, 'z) wrapper_scheme \<Rightarrow> shape \<Rightarrow> py_error + ('t, 's, 'z) wrapper_scheme" where
  "RNNCellWrapper_build self inputs_shape =
     (case cell_build (cell self) inputs_shape of
        Inl e \<Rightarrow> Inl e
      | Inr c' \<Rightarrow> Inr (self\<lparr>cell := c', layer_part := (layer_part self)\<lparr>built := True\<rparr>\<rparr>))"

text \<open>
  \<open>_RNNCellWrapper.get_config\<close>. \<open>base_get_config\<close> is the parent class's method; it and
  the cell's \<open>get_config\<close> are taken to return their dictionaries.
\<close>

definition cell_entry :: "('t, 's) rnn_cell \<Rightarrow> pyval" where
  "cell_entry c =
     PDict [(''class_name'', PStr (class_name (cell_cls c))),
            (''config'', PDict (cell_get_config c))]"

definition RNNCellWrapper_get_config ::
  "(layer \<Rightarrow> pydict) \<Rightarrow> ('t, 's, 'z) wrapper_scheme \<Rightarrow> pydict" where
  "RNNCellWrapper_get_config base_get_config self =
     (let config = [(''cell'', cell_entry (cell self))];
          base_config = base_get_config (layer_part self)
      in dict_of_items (base_config @ config))"

text \<open>
  \<open>_RNNCellWrapper.from_config(cls, config, custom_objects)\<close>. The caller's dictionary is
  an object that the method could change, so dictionaries are objects of a store and
  \<open>config\<close> is the address of one. \<open>deserialize_layer\<close> (from the serialization module)
  and the class \<open>cls\<close> being instantiated are parameters; both receive the store and return
  it as they leave it, so they can change every object they reach.

  \<open>config.copy()\<close> is a shallow copy: a new dictionary with the items of the old one. Its
  values are the values of the caller's dictionary, so an object that a value refers to is
  shared by both. The new dictionary itself is known to \<open>from_config\<close> alone (\<open>cls\<close>
  receives its items as keyword arguments, not the dictionary), so it is a local value;
  \<open>pop\<close> changes this local value and writes nothing to the store.
\<close>

type_synonym heap = "pydict list"

definition dict_copy :: "heap \<Rightarrow> nat \<Rightarrow> pydict" where
  "dict_copy h a = h ! a"

definition RNNCellWrapper_from_config ::
  "(('t, 's) rnn_cell \<Rightarrow> pydict \<Rightarrow> heap \<Rightarrow> (py_error + 'w) \<times> heap)
     \<Rightarrow> (pyval \<Rightarrow> 'co \<Rightarrow> heap \<Rightarrow> (py_error + ('t, 's) rnn_cell) \<times> heap)
     \<Rightarrow> heap \<Rightarrow> nat \<Rightarrow> 'co \<Rightarrow> (py_error + 'w) \<times> heap" where
  "RNNCellWrapper_from_config cls deserialize_layer h config custom_objects =
     (let config' = dict_copy h config
      in case dict_pop config' ''cell'' of
           None \<Rightarrow> (Inl KeyError, h)
         | Some (v, config'') \<Rightarrow>
             (case deserialize_layer v custom_objects h of
                (Inl e, h') \<Rightarrow> (Inl e, h')
              | (Inr c, h') \<Rightarrow> cls c config'' h'))"

text \<open>
  What a value is worth to someone who holds it: the value with the references in it
  replaced by the dictionaries they refer to, down to the given depth.
\<close>

fun deref :: "nat \<Rightarrow> heap \<Rightarrow> pyval \<Rightarrow> pyval" where
  "deref 0 h v = v"
| "deref (Suc n) h (PRef a) =
     (if a < length h then PDict (map (\<lambda>(k, v). (k, deref n h v)) (h ! a)) else PRef a)"
| "deref (Suc n) h (PDict d) = PDict (map (\<lambda>(k, v). (k, deref n h v)) d)"
| "deref (Suc n) h (PList vs) = PList (map (deref n h) vs)"
| "deref (Suc n) h v = v"

section \<open>The exported wrappers\<close>

text \<open>
  Each exported wrapper inherits from a mixin of \<open>base_cell_wrappers\<close> and from
  \<open>_RNNCellWrapper\<close>, and its constructor hands all its arguments to the next constructor
  in line, \<open>base_init\<close>. The argument bundle has type \<open>'a\<close>.
\<close>

definition lstm_v1_LSTMCell :: string where
  "lstm_v1_LSTMCell = ''keras.layers.rnn.lstm_v1.LSTMCell''"

definition DropoutWrapper_init ::
  "('a \<Rightarrow> py_error + ('t, 's, 'z) wrapper_scheme) \<Rightarrow> 'a
     \<Rightarrow> py_error + ('t, 's, 'z) wrapper_scheme" where
  "DropoutWrapper_init base_init a =
     (case base_init a of
        Inl e \<Rightarrow> Inl e
      | Inr self \<Rightarrow>
          if isinstance (cell self) lstm_v1_LSTMCell then Inl ValueError else Inr self)"

definition ResidualWrapper_init ::
  "('a \<Rightarrow> py_error + ('t, 's, 'z) wrapper_scheme) \<Rightarrow> 'a
     \<Rightarrow> py_error + ('t, 's, 'z) wrapper_scheme" where
  "ResidualWrapper_init base_init a = base_init a"

definition DeviceWrapper_init ::
  "('a \<Rightarrow> py_error + ('t, 's, 'z) wrapper_scheme) \<Rightarrow> 'a
     \<Rightarrow> py_error + ('t, 's, 'z) wrapper_scheme" where
  "DeviceWrapper_init base_init a = base_init a"

text \<open>
  Modelled from the spec: \<open>ResidualWrapperBase._call_wrapped_cell\<close> lives in
  \<open>base_cell_wrappers\<close>, which is not among the sources. The wrapper is described as one
  "that ensures cell inputs are added to the outputs" (residual addition): the cell is
  called, the inputs are added to its output, and its new state is returned as it is.
\<close>

definition ResidualWrapperBase_call_wrapped_cell ::
  "('t::plus, 's, 'z) wrapper_scheme \<Rightarrow> 't \<Rightarrow> 's
     \<Rightarrow> ('t \<Rightarrow> 's \<Rightarrow> pydict \<Rightarrow> py_error + ('t \<times> 's)) \<Rightarrow> pydict \<Rightarrow> py_error + ('t \<times> 's)" where
  "ResidualWrapperBase_call_wrapped_cell self inputs state cell_call_fn kwargs =
     (case cell_call_fn inputs state kwargs of
        Inl e \<Rightarrow> Inl e
      | Inr (outputs, new_state) \<Rightarrow> Inr (outputs + inputs, new_state))"

text \<open>\<open>ResidualWrapper\<close> defines no \<open>call\<close> of its own: it is the inherited one.\<close>

definition ResidualWrapper_call ::
  "('t::plus, 's, 'z) wrapper_scheme \<Rightarrow> 't \<Rightarrow> 's \<Rightarrow> pydict \<Rightarrow> py_error + ('t \<times> 's)" where
  "ResidualWrapper_call = RNNCellWrapper_call ResidualWrapperBase_call_wrapped_cell"

section \<open>The mnist end-to-end test\<close>

text \<open>\<open>'%d' % i\<close> and \<open>range(n)\<close>.\<close>

definition digit_char :: "nat \<Rightarrow> char" where
  "digit_char n = ''0123456789'' ! n"

fun str_of_nat :: "nat \<Rightarrow> string" where
  "str_of_nat n =
     (if n < 10 then [digit_char n] else str_of_nat (n div 10) @ [digit_char (n mod 10)])"

definition format_d :: "int \<Rightarrow> string" where
  "format_d i = (if i < 0 then ''-'' @ str_of_nat (nat (- i)) else str_of_nat (nat i))"

definition py_range :: "nat \<Rightarrow> int list" where
  "py_range n = map int [0..<n]"

text \<open>
  A loss is a floating-point number or not a number. Every comparison with \<open>NaN\<close> is
  false, also \<open>NaN == NaN\<close>.
\<close>

datatype pyfloat = Float real | NaN

definition float_lt :: "pyfloat \<Rightarrow> pyfloat \<Rightarrow> bool" where
  "float_lt a b = (case (a, b) of (Float x, Float y) \<Rightarrow> x < y | _ \<Rightarrow> False)"

definition float_le :: "pyfloat \<Rightarrow> pyfloat \<Rightarrow> bool" where
  "float_le a b = (case (a, b) of (Float x, Float y) \<Rightarrow> x \<le> y | _ \<Rightarrow> False)"

definition float_eq :: "pyfloat \<Rightarrow> pyfloat \<Rightarrow> bool" where
  "float_eq a b = (case (a, b) of (Float x, Float y) \<Rightarrow> x = y | _ \<Rightarrow> False)"

text \<open>
  The sort of Python lists, as it runs on a list shorter than 64 elements (the test
  records one loss per epoch, three in all). It uses the comparison \<open>lt\<close> only. The
  longest run at the start of the list that does not descend, or that strictly descends
  and is then reversed, is kept; each remaining element is put into it at the place a
  binary search finds.
\<close>

fun run_ascending :: "('a \<Rightarrow> 'a \<Rightarrow> bool) \<Rightarrow> 'a \<Rightarrow> 'a list \<Rightarrow> 'a list \<times> 'a list" where
  "run_ascending lt prev [] = ([], [])"
| "run_ascending lt prev (x # xs) =
     (if lt x prev then ([], x # xs)
      else (case run_ascending lt x xs of (run, rest) \<Rightarrow> (x # run, rest)))"

fun run_descending :: "('a \<Rightarrow> 'a \<Rightarrow> bool) \<Rightarrow> 'a \<Rightarrow> 'a list \<Rightarrow> 'a list \<times> 'a list" where
  "run_descending lt prev [] = ([], [])"
| "run_descending lt prev (x # xs) =
     (if lt x prev
      then (case run_descending lt x xs of (run, rest) \<Rightarrow> (x # run, rest))
      else ([], x # xs))"

fun count_run :: "('a \<Rightarrow> 'a \<Rightarrow> bool) \<Rightarrow> 'a list \<Rightarrow> 'a list \<times> 'a list" where
  "count_run lt [] = ([], [])"
| "count_run lt [x] = ([x], [])"
| "count_run lt (x # y # zs) =
     (if lt y x
      then (case run_descending lt y zs of (run, rest) \<Rightarrow> (rev (x # y # run), rest))
      else (case run_ascending lt y zs of (run, rest) \<Rightarrow> (x # y # run, rest)))"

function bisect :: "('a \<Rightarrow> 'a \<Rightarrow> bool) \<Rightarrow> 'a \<Rightarrow> 'a list \<Rightarrow> nat \<Rightarrow> nat \<Rightarrow> nat" where
  "bisect lt pivot xs l r =
     (if l < r
      then (let p = l + (r - l) div 2
            in if lt pivot (xs ! p) then bisect lt pivot xs l p
               else bisect lt pivot xs (p + 1) r)
      else l)"
  by pat_completeness auto
termination
  by (relation "measure (\<lambda>(lt, pivot, xs, l, r). r - l)") auto

declare bisect.simps [simp del]

definition binary_insert :: "('a \<Rightarrow> 'a \<Rightarrow> bool) \<Rightarrow> 'a list \<Rightarrow> 'a \<Rightarrow> 'a list" where
  "binary_insert lt xs pivot =
     (let k = bisect lt pivot xs 0 (length xs) in take k xs @ pivot # drop k xs)"

definition binarysort :: "('a \<Rightarrow> 'a \<Rightarrow> bool) \<Rightarrow> 'a list \<Rightarrow> 'a list \<Rightarrow> 'a list" where
  "binarysort lt run rest = foldl (binary_insert lt) run rest"

definition list_sort :: "('a \<Rightarrow> 'a \<Rightarrow> bool) \<Rightarrow> 'a list \<Rightarrow> 'a list" where
  "list_sort lt xs = (case count_run lt xs of (run, rest) \<Rightarrow> binarysort lt run rest)"

text \<open>\<open>sorted(xs, reverse=True)\<close>: the list is reversed, sorted, and reversed again.\<close>

definition py_sorted_reverse :: "('a \<Rightarrow> 'a \<Rightarrow> bool) \<Rightarrow> 'a list \<Rightarrow> 'a list" where
  "py_sorted_reverse lt xs = rev (list_sort lt (rev xs))"

text \<open>
  The losses are objects: an object is its identity and its value, and the objects of a
  list are told apart by their position in it. \<open>sorted\<close> compares the values and returns
  the same objects in another order. Two lists are equal when they are equally long and
  the objects at each position are the same object or have equal values.
\<close>

type_synonym 'a obj = "nat \<times> 'a"

definition py_objects :: "'a list \<Rightarrow> 'a obj list" where
  "py_objects xs = enumerate 0 xs"

definition obj_lt :: "pyfloat obj \<Rightarrow> pyfloat obj \<Rightarrow> bool" where
  "obj_lt a b = float_lt (snd a) (snd b)"

definition obj_eq :: "pyfloat obj \<Rightarrow> pyfloat obj \<Rightarrow> bool" where
  "obj_eq a b = (fst a = fst b \<or> float_eq (snd a) (snd b))"

definition py_list_eq :: "pyfloat obj list \<Rightarrow> pyfloat obj list \<Rightarrow> bool" where
  "py_list_eq xs ys = list_all2 obj_eq xs ys"

text \<open>
  The global state of the runtime that the test sets up: the logical devices configured
  on each physical device, whether the random generator of the backend is enabled, and
  the random seed.
\<close>

datatype logical_device_configuration = LogicalDeviceConfiguration

record 'd tf_state =
  logical_devices :: "'d \<rightharpoonup> logical_device_configuration list"
  tf_random_generator :: bool
  random_seed :: "int option"

definition set_logical_device_configuration ::
  "'d tf_state \<Rightarrow> 'd \<Rightarrow> logical_device_configuration list \<Rightarrow> 'd tf_state" where
  "set_logical_device_configuration st d cfgs =
     st\<lparr>logical_devices := (logical_devices st)(d \<mapsto> cfgs)\<rparr>"

text \<open>
  What the test calls in the distributed-tensor runtime and in the test utilities:
  physical devices \<open>'d\<close>, meshes \<open>'m\<close>, layout maps \<open>'y\<close>, models \<open>'k\<close>, optimizers \<open>'o\<close>,
  losses \<open>'l\<close>.
\<close>

record ('d, 'm, 'y, 'k, 'o, 'l) mnist_env =
  list_physical_devices :: "string \<Rightarrow> 'd list"
  create_mesh :: "string list \<Rightarrow> (string \<times> nat) list \<Rightarrow> 'm"
  get_all_replicated_layout_map :: "'m \<Rightarrow> 'y"
  get_model_with_layout_map :: "'d tf_state \<Rightarrow> 'y \<Rightarrow> 'k"
  Adam :: "real \<Rightarrow> 'm \<Rightarrow> 'o"
  optimizer_build :: "'o \<Rightarrow> 'k \<Rightarrow> 'o"
  train_mnist_model_batch_sharded ::
    "'d tf_state \<Rightarrow> 'k \<Rightarrow> 'o \<Rightarrow> 'm \<Rightarrow> nat \<Rightarrow> nat \<Rightarrow> nat \<Rightarrow> 'l list"

datatype outcome = Passed | Failed | Errored py_error

record ('d, 'm, 'l) test_run =
  run_state :: "'d tf_state"
  run_mesh :: "'m option"
  run_losses :: "'l list option"
  run_outcome :: outcome

definition mesh_device_names :: "string list" where
  "mesh_device_names = map (\<lambda>i. ''CPU:'' @ format_d i) (py_range 8)"

definition test_mnist_training_cpu ::
  "('d, 'm, 'y, 'k, 'o, pyfloat) mnist_env \<Rightarrow> 'd tf_state \<Rightarrow> ('d, 'm, pyfloat) test_run" where
  "test_mnist_training_cpu env st =
     (case list_physical_devices env ''CPU'' of
        [] \<Rightarrow> \<lparr>run_state = st, run_mesh = None, run_losses = None,
                run_outcome = Errored IndexError\<rparr>
      | d0 # _ \<Rightarrow>
          (let st1 = set_logical_device_configuration st d0
                       (replicate 8 LogicalDeviceConfiguration);
               mesh = create_mesh env mesh_device_names [(''batch'', 8)];
               st2 = st1\<lparr>tf_random_generator := True\<rparr>;
               st3 = st2\<lparr>random_seed := Some 1337\<rparr>;
               model = get_model_with_layout_map env st3
                         (get_all_replicated_layout_map env mesh);
               optimizer = optimizer_build env (Adam env (1 / 1000) mesh) model;
               train_losses = train_mnist_model_batch_sharded env st3 model optimizer mesh
                                3 100 64;
               objects = py_objects train_losses
           in \<lparr>run_state = st3, run_mesh = Some mesh, run_losses = Some train_losses,
                run_outcome =
                  (if py_list_eq objects (py_sorted_reverse obj_lt objects) then Passed
                   else Failed)\<rparr>))"

section \<open>Example objects\<close>

text \<open>
  A parent-class constructor that accepts the usual layer keywords and nothing else, a
  parent-class \<open>get_config\<close> that returns the stored keywords, and a few cells over
  integer tensors. They are the concrete inputs at which the properties are instantiated.
\<close>

definition plain_layer_init :: "pyval list \<Rightarrow> pydict \<Rightarrow> py_error + layer" where
  "plain_layer_init args kwargs =
     (if args = [] \<and> set (map fst kwargs) \<subseteq> {''name'', ''trainable'', ''dtype''}
      then Inr \<lparr>built = False, attrs = kwargs\<rparr> else Inl TypeError)"

definition plain_get_config :: "layer \<Rightarrow> pydict" where
  "plain_get_config l = attrs l"

definition minimal_cell_class :: "(int, int) cell_class" where
  "minimal_cell_class =
     \<lparr>class_name = ''MinimalRNNCell'',
      class_mro = [''MinimalRNNCell'', ''keras.layers.rnn.abstract_rnn_cell.AbstractRNNCell''],
      call_spec = \<lparr>spec_args = [''self'', ''inputs'', ''states''], spec_varargs = None,
                   spec_varkw = None, spec_kwonlyargs = []\<rparr>,
      call_impl = (\<lambda>l x s kw. Inr (x + s, x + s)),
      build_impl = (\<lambda>l sh. Inr (l\<lparr>built := True\<rparr>)),
      get_config_impl = attrs\<rparr>"

definition minimal_cell :: "(int, int) rnn_cell" where
  "minimal_cell =
     \<lparr>cell_cls = minimal_cell_class,
      cell_self = \<lparr>built = False, attrs = [(''units'', PInt 4)]\<rparr>\<rparr>"

definition training_cell :: "(int, int) rnn_cell" where
  "training_cell =
     minimal_cell\<lparr>cell_cls := minimal_cell_class
       \<lparr>call_spec := \<lparr>spec_args = [''self'', ''inputs'', ''states'', ''training''],
                      spec_varargs = None, spec_varkw = None, spec_kwonlyargs = []\<rparr>\<rparr>\<rparr>"

definition lstm_cell :: "(int, int) rnn_cell" where
  "lstm_cell =
     minimal_cell\<lparr>cell_cls := minimal_cell_class
       \<lparr>class_name := ''LSTMCell'',
        class_mro := [lstm_v1_LSTMCell, ''keras.layers.rnn.lstm.LSTMCell'']\<rparr>\<rparr>"

definition unmarking_cell :: "(int, int) rnn_cell" where
  "unmarking_cell =
     minimal_cell\<lparr>cell_cls := minimal_cell_class\<lparr>build_impl := (\<lambda>l sh. Inr l)\<rparr>\<rparr>"

definition minimal_wrapper :: "(int, int) wrapper" where
  "minimal_wrapper =
     \<lparr>layer_part = \<lparr>built = False,
                     attrs = [(''name'', PStr ''wrapper''), (''cell'', PNone),
                              (''trainable'', PBool True)]\<rparr>,
      cell = minimal_cell, expects_training_arg = False\<rparr>"

definition unmarking_wrapper :: "(int, int) wrapper" where
  "unmarking_wrapper =
     \<lparr>layer_part = \<lparr>built = False, attrs = []\<rparr>, cell = unmarking_cell,
      expects_training_arg = False\<rparr>"

text \<open>The constructor of \<open>_RNNCellWrapper\<close> as the next constructor in line of an exported
  wrapper: the argument bundle is the cell, the positional and the keyword arguments.\<close>

definition wrapper_args_init ::
  "('t, 's) rnn_cell \<times> pyval list \<times> pydict \<Rightarrow> py_error + ('t, 's) wrapper" where
  "wrapper_args_init a =
     (case a of (c, args, kwargs) \<Rightarrow> RNNCellWrapper_init plain_layer_init c args kwargs)"

text \<open>A runtime for the test whose training returns a given list of losses and whose
  meshes record the arguments they were created with.\<close>

definition replay_env ::
  "pyfloat list
     \<Rightarrow> (string, string list \<times> (string \<times> nat) list, unit, unit, unit, pyfloat) mnist_env" where
  "replay_env losses =
     \<lparr>list_physical_devices = (\<lambda>kind. [''/physical_device:CPU:0'']),
      create_mesh = (\<lambda>devices mesh_dims. (devices, mesh_dims)),
      get_all_replicated_layout_map = (\<lambda>mesh. ()),
      get_model_with_layout_map = (\<lambda>st layout_map. ()),
      Adam = (\<lambda>learning_rate mesh. ()),
      optimizer_build = (\<lambda>optimizer model. optimizer),
      train_mnist_model_batch_sharded =
        (\<lambda>st model optimizer mesh num_epochs steps_per_epoch global_batch_size. losses)\<rparr>"

definition initial_tf_state :: "string tf_state" where
  "initial_tf_state =
     \<lparr>logical_devices = Map.empty, tf_random_generator = False, random_seed = None\<rparr>"

definition named_wrapper :: "(int, int) wrapper" where
  "named_wrapper =
     \<lparr>layer_part = \<lparr>built = False,
                     attrs = [(''name'', PStr ''wrapper''), (''trainable'', PBool True)]\<rparr>,
      cell = minimal_cell, expects_training_arg = False\<rparr>"

text \<open>A deserializer that knows the class of the minimal cell only and leaves the store as
  it is, the constructor of \<open>_RNNCellWrapper\<close> as the class to instantiate, and a store
  with two dictionaries, the second being the configuration of a wrapper.\<close>

definition minimal_deserialize ::
  "pyval \<Rightarrow> unit \<Rightarrow> heap \<Rightarrow> (py_error + (int, int) rnn_cell) \<times> heap" where
  "minimal_deserialize v custom_objects h =
     (case v of
        PDict d \<Rightarrow>
          (case (dict_get d ''class_name'', dict_get d ''config'') of
             (Some (PStr n), Some (PDict cfg)) \<Rightarrow>
               if n = ''MinimalRNNCell''
               then (Inr \<lparr>cell_cls = minimal_cell_class,
                          cell_self = \<lparr>built = False, attrs = cfg\<rparr>\<rparr>, h)
               else (Inl ValueError, h)
           | _ \<Rightarrow> (Inl ValueError, h))
      | _ \<Rightarrow> (Inl ValueError, h))"

definition wrapper_class ::
  "('t, 's) rnn_cell \<Rightarrow> pydict \<Rightarrow> heap \<Rightarrow> (py_error + ('t, 's) wrapper) \<times> heap" where
  "wrapper_class c kwargs h = (RNNCellWrapper_init plain_layer_init c [] kwargs, h)"

definition config_heap :: heap where
  "config_heap =
     [[(''units'', PInt 4)],
      RNNCellWrapper_get_config plain_get_config named_wrapper]"

text \<open>
  A store in which the caller's dictionary (address 0) refers to the nested \<open>cell\<close>
  dictionary (address 1), which refers to the configuration of a stacked cell (address
  2), and a deserializer that does what the \<open>from_config\<close> of a stacked cell does with
  the configuration it is given: it pops the \<open>cells\<close> entry from it, without a copy.
\<close>

definition stacked_store :: heap where
  "stacked_store =
     [[(''name'', PStr ''wrapper''), (''cell'', PRef 1)],
      [(''class_name'', PStr ''StackedRNNCells''), (''config'', PRef 2)],
      [(''name'', PStr ''stacked''), (''cells'', PList [])]]"

definition popping_deserialize ::
  "pyval \<Rightarrow> unit \<Rightarrow> heap \<Rightarrow> (py_error + (int, int) rnn_cell) \<times> heap" where
  "popping_deserialize v custom_objects h =
     (case v of
        PRef a \<Rightarrow>
          (case dict_get (h ! a) ''config'' of
             Some (PRef b) \<Rightarrow>
               (case dict_pop (h ! b) ''cells'' of
                  Some (cells, d) \<Rightarrow> (Inr minimal_cell, h[b := d])
                | None \<Rightarrow> (Inl KeyError, h))
           | _ \<Rightarrow> (Inl ValueError, h))
      | _ \<Rightarrow> (Inl ValueError, h))"

section \<open>Properties\<close>

subsection \<open>Dictionaries\<close>

lemma map_of_dict_set: "map_of (dict_set d k v) = (map_of d)(k \<mapsto> v)"
  by (induction d k v rule: dict_set.induct) (auto simp: fun_eq_iff)

lemma keys_dict_set:
  "map fst (dict_set d k v) = (if k \<in> fst ` set d then map fst d else map fst d @ [k])"
  by (induction d k v rule: dict_set.induct) (auto simp: image_iff)

lemma distinct_dict_set: "distinct (map fst d) \<Longrightarrow> distinct (map fst (dict_set d k v))"
  by (simp add: keys_dict_set)

lemma dict_set_append_fresh:
  "k \<notin> fst ` set d \<Longrightarrow> dict_set d k v = d @ [(k, v)]"
  by (induction d k v rule: dict_set.induct) auto

lemma foldl_dict_set_distinct:
  "distinct (map fst (acc @ xs)) \<Longrightarrow> foldl (\<lambda>d (k, v). dict_set d k v) acc xs = acc @ xs"
proof (induction xs arbitrary: acc)
  case Nil
  then show ?case by simp
next
  case (Cons x xs)
  obtain k v where x: "x = (k, v)" by (cases x)
  from Cons.prems have fresh: "k \<notin> fst ` set acc" by (auto simp: x)
  have "foldl (\<lambda>d (k, v). dict_set d k v) acc (x # xs)
          = foldl (\<lambda>d (k, v). dict_set d k v) (acc @ [x]) xs"
    by (simp add: x dict_set_append_fresh [OF fresh])
  also have "\<dots> = (acc @ [x]) @ xs"
    using Cons.prems by (intro Cons.IH) simp
  finally show ?case by simp
qed

lemma dict_of_items_distinct: "distinct (map fst d) \<Longrightarrow> dict_of_items d = d"
  unfolding dict_of_items_def using foldl_dict_set_distinct [of "[]" d] by simp

lemma dict_of_items_snoc:
  "dict_of_items (xs @ [(k, v)]) = dict_set (dict_of_items xs) k v"
  by (simp add: dict_of_items_def)

lemma dict_get_get_config:
  assumes "distinct (map fst (bgc (layer_part w)))"
  shows "dict_get (RNNCellWrapper_get_config bgc w) k =
         (if k = ''cell'' then Some (cell_entry (cell w)) else dict_get (bgc (layer_part w)) k)"
  using assms
  by (simp add: RNNCellWrapper_get_config_def dict_get_def dict_of_items_snoc
        dict_of_items_distinct map_of_dict_set)

lemma dict_pop_lookup: "dict_pop d k = Some (v, d') \<Longrightarrow> dict_get d k = Some v"
  by (induction d k arbitrary: d' rule: dict_pop.induct)
     (auto simp: dict_get_def split: if_splits option.splits)

lemma dict_pop_dict_set:
  "distinct (map fst d) \<Longrightarrow>
   dict_pop (dict_set d k v) k = Some (v, filter (\<lambda>(k', v'). k' \<noteq> k) d)"
  by (induction d k v rule: dict_set.induct) (auto simp: image_iff intro!: filter_True [symmetric])

subsection \<open>The wrapper base class\<close>


text \<open>
  Claim C9. When the constructor of \<open>_RNNCellWrapper\<close> returns a wrapper for the cell
  \<open>c\<close>, its \<open>_expects_training_arg\<close> attribute is true exactly when \<open>training\<close> is one of
  the named positional arguments of \<open>c.call\<close> or \<open>c.call\<close> takes arbitrary keyword
  arguments.
\<close>

theorem expects_training_arg_iff:
  assumes "RNNCellWrapper_init layer_init c args kwargs = Inr w"
  shows "expects_training_arg w \<longleftrightarrow>
           (''training'' \<in> set (spec_args (call_spec (cell_cls c)))
            \<or> spec_varkw (call_spec (cell_cls c)) \<noteq> None)"
  using assms
  by (auto simp: RNNCellWrapper_init_def Let_def split: sum.splits)

theorem expects_training_arg_iff_witness:
  "RNNCellWrapper_init plain_layer_init training_cell [] [(''name'', PStr ''w'')]
     = Inr \<lparr>layer_part = \<lparr>built = False, attrs = [(''name'', PStr ''w'')]\<rparr>,
            cell = training_cell, expects_training_arg = True\<rparr>
   \<and> ''training'' \<in> set (spec_args (call_spec (cell_cls training_cell)))
   \<and> RNNCellWrapper_init plain_layer_init minimal_cell [] []
     = Inr \<lparr>layer_part = \<lparr>built = False, attrs = []\<rparr>, cell = minimal_cell,
            expects_training_arg = False\<rparr>
   \<and> ''training'' \<notin> set (spec_args (call_spec (cell_cls minimal_cell)))
   \<and> spec_varkw (call_spec (cell_cls minimal_cell)) = None"
proof -
  have a: "RNNCellWrapper_init plain_layer_init training_cell [] [(''name'', PStr ''w'')]
     = Inr \<lparr>layer_part = \<lparr>built = False, attrs = [(''name'', PStr ''w'')]\<rparr>,
            cell = training_cell, expects_training_arg = True\<rparr>"
    by (simp add: RNNCellWrapper_init_def plain_layer_init_def training_cell_def
          minimal_cell_def minimal_cell_class_def)
  have b: "RNNCellWrapper_init plain_layer_init minimal_cell [] []
     = Inr \<lparr>layer_part = \<lparr>built = False, attrs = []\<rparr>, cell = minimal_cell,
            expects_training_arg = False\<rparr>"
    by (simp add: RNNCellWrapper_init_def plain_layer_init_def
          minimal_cell_def minimal_cell_class_def)
  have v: "spec_varkw (call_spec (cell_cls training_cell)) = None"
    by (simp add: training_cell_def minimal_cell_def minimal_cell_class_def)
  show ?thesis
    using a b v expects_training_arg_iff [OF a] expects_training_arg_iff [OF b]
    by simp
qed

text \<open>
  Claim C1. For a wrapper constructed by \<open>_RNNCellWrapper\<close> around the cell \<open>c\<close>,
  and for every mixed-in \<open>_call_wrapped_cell\<close> (dropout, residual, device), \<open>call\<close>
  returns exactly what \<open>_call_wrapped_cell\<close> returns when it is given the inputs, the
  state, \<open>c.call\<close> as the function to call the cell with, and the keyword arguments.
\<close>

theorem call_delegates_to_wrapped_cell:
  assumes "RNNCellWrapper_init layer_init c args kwargs = Inr w"
  shows "RNNCellWrapper_call cwc w inputs state kw = cwc w inputs state (cell_call c) kw"
proof -
  from assms have "cell w = c"
    by (auto simp: RNNCellWrapper_init_def Let_def split: sum.splits)
  then show ?thesis by (simp add: RNNCellWrapper_call_def)
qed

theorem call_delegates_to_wrapped_cell_witness:
  "RNNCellWrapper_init plain_layer_init minimal_cell [] []
     = Inr \<lparr>layer_part = \<lparr>built = False, attrs = []\<rparr>, cell = minimal_cell,
            expects_training_arg = False\<rparr>
   \<and> RNNCellWrapper_call (\<lambda>self x s f kw. f x s kw)
        \<lparr>layer_part = \<lparr>built = False, attrs = []\<rparr>, cell = minimal_cell,
         expects_training_arg = False\<rparr> 3 4 []
     = Inr (7, 7)"
proof -
  have b: "RNNCellWrapper_init plain_layer_init minimal_cell [] []
     = Inr \<lparr>layer_part = \<lparr>built = False, attrs = []\<rparr>, cell = minimal_cell,
            expects_training_arg = False\<rparr>"
    by (simp add: RNNCellWrapper_init_def plain_layer_init_def
          minimal_cell_def minimal_cell_class_def)
  have "cell_call minimal_cell 3 4 [] = Inr (7, 7)"
    by (simp add: cell_call_def minimal_cell_def minimal_cell_class_def)
  with call_delegates_to_wrapped_cell [OF b, of "\<lambda>self x s f kw. f x s kw" 3 4 "[]"] b
  show ?thesis by simp
qed

text \<open>
  Claim C5. The dictionary returned by \<open>get_config\<close> maps \<open>cell\<close> to the dictionary
  holding the wrapped cell's class name under \<open>class_name\<close> and the cell's own
  configuration under \<open>config\<close>; every other key has the value the parent class's
  configuration gives it. A \<open>cell\<close> key of the parent configuration is overridden.
  The parent configuration is a dictionary, so its keys are distinct.
\<close>

theorem get_config_cell_entry:
  assumes "distinct (map fst (base_get_config (layer_part w)))"
  shows "dict_get (RNNCellWrapper_get_config base_get_config w) k =
         (if k = ''cell''
          then Some (PDict [(''class_name'', PStr (class_name (cell_cls (cell w)))),
                            (''config'', PDict (cell_get_config (cell w)))])
          else dict_get (base_get_config (layer_part w)) k)"
  using assms dict_get_get_config [of base_get_config w k] by (simp add: cell_entry_def)

theorem get_config_cell_entry_witness:
  "distinct (map fst (plain_get_config (layer_part minimal_wrapper)))
   \<and> dict_get (RNNCellWrapper_get_config plain_get_config minimal_wrapper) ''cell''
       = Some (PDict [(''class_name'', PStr ''MinimalRNNCell''),
                      (''config'', PDict [(''units'', PInt 4)])])
   \<and> dict_get (RNNCellWrapper_get_config plain_get_config minimal_wrapper) ''name''
       = Some (PStr ''wrapper'')"
proof -
  have d: "distinct (map fst (plain_get_config (layer_part minimal_wrapper)))"
    by (simp add: plain_get_config_def minimal_wrapper_def)
  show ?thesis
    using d get_config_cell_entry [of plain_get_config minimal_wrapper "''cell''"]
      get_config_cell_entry [of plain_get_config minimal_wrapper "''name''"]
    by (simp add: plain_get_config_def minimal_wrapper_def minimal_cell_def
          minimal_cell_class_def cell_get_config_def dict_get_def)
qed

text \<open>
  Claim C4, as the code has it. \<open>build\<close> calls the wrapped cell's \<open>build\<close> with the
  same shape; when that returns, the wrapper holds the cell as its own \<open>build\<close> left
  it and the wrapper is marked built. The cell is marked built exactly when its own
  \<open>build\<close> marks it: the wrapper does not set the flag of the cell.
\<close>

theorem build_builds_cell_and_marks_wrapper:
  assumes "cell_build (cell w) inputs_shape = Inr c'"
  shows "RNNCellWrapper_build w inputs_shape
           = Inr (w\<lparr>cell := c', layer_part := (layer_part w)\<lparr>built := True\<rparr>\<rparr>)
         \<and> built (layer_part (w\<lparr>cell := c', layer_part := (layer_part w)\<lparr>built := True\<rparr>\<rparr>))
         \<and> (built (cell_self c') \<longleftrightarrow>
              (\<exists>l. build_impl (cell_cls (cell w)) (cell_self (cell w)) inputs_shape = Inr l
                   \<and> built l))"
  using assms
  by (auto simp: RNNCellWrapper_build_def cell_build_def split: sum.splits)

theorem build_builds_cell_and_marks_wrapper_witness:
  "cell_build (cell minimal_wrapper) [None, Some 4]
     = Inr (minimal_cell\<lparr>cell_self := \<lparr>built = True, attrs = [(''units'', PInt 4)]\<rparr>\<rparr>)
   \<and> RNNCellWrapper_build minimal_wrapper [None, Some 4]
     = Inr (minimal_wrapper
             \<lparr>cell := minimal_cell\<lparr>cell_self := \<lparr>built = True, attrs = [(''units'', PInt 4)]\<rparr>\<rparr>,
              layer_part := (layer_part minimal_wrapper)\<lparr>built := True\<rparr>\<rparr>)
   \<and> built (cell_self (minimal_cell\<lparr>cell_self := \<lparr>built = True, attrs = [(''units'', PInt 4)]\<rparr>\<rparr>))"
proof -
  have b: "cell_build (cell minimal_wrapper) [None, Some 4]
     = Inr (minimal_cell\<lparr>cell_self := \<lparr>built = True, attrs = [(''units'', PInt 4)]\<rparr>\<rparr>)"
    by (simp add: cell_build_def minimal_wrapper_def minimal_cell_def minimal_cell_class_def)
  show ?thesis
    using b build_builds_cell_and_marks_wrapper [OF b] by simp
qed

text \<open>
  Claim C4, as stated, says that after \<open>build\<close> the wrapped cell is marked built as
  well. A cell whose \<open>build\<close> does not set its own flag stays unmarked, while the
  wrapper around it is marked built.
\<close>

theorem build_marks_cell_built_counterexample:
  "RNNCellWrapper_build unmarking_wrapper [None, Some 4]
     = Inr (unmarking_wrapper\<lparr>layer_part := \<lparr>built = True, attrs = []\<rparr>\<rparr>)
   \<and> \<not> built (cell_self (cell (unmarking_wrapper\<lparr>layer_part := \<lparr>built = True, attrs = []\<rparr>\<rparr>)))"
  by (simp add: RNNCellWrapper_build_def cell_build_def unmarking_wrapper_def
        unmarking_cell_def minimal_cell_def minimal_cell_class_def)

subsection \<open>The exported wrappers\<close>

text \<open>
  Claim C6. When the wrapped cell's \<open>call\<close> returns an output and a new state for the
  inputs and the state, the residual wrapper's \<open>call\<close> returns that output with the
  inputs added to it, and the same new state.
\<close>

theorem residual_call_adds_inputs:
  assumes "cell_call (cell w) inputs state kwargs = Inr (output, new_state)"
  shows "ResidualWrapper_call w inputs state kwargs = Inr (output + inputs, new_state)"
  using assms
  by (simp add: ResidualWrapper_call_def RNNCellWrapper_call_def
        ResidualWrapperBase_call_wrapped_cell_def)

theorem residual_call_adds_inputs_witness:
  "ResidualWrapper_init wrapper_args_init (minimal_cell, [], [])
     = Inr \<lparr>layer_part = \<lparr>built = False, attrs = []\<rparr>, cell = minimal_cell,
            expects_training_arg = False\<rparr>
   \<and> cell_call minimal_cell 3 4 [] = Inr (7, 7)
   \<and> ResidualWrapper_call
        \<lparr>layer_part = \<lparr>built = False, attrs = []\<rparr>, cell = minimal_cell,
         expects_training_arg = False\<rparr> 3 4 [] = Inr (10, 7)"
proof -
  have i: "ResidualWrapper_init wrapper_args_init (minimal_cell, [], [])
     = Inr \<lparr>layer_part = \<lparr>built = False, attrs = []\<rparr>, cell = minimal_cell,
            expects_training_arg = False\<rparr>"
    by (simp add: ResidualWrapper_init_def wrapper_args_init_def RNNCellWrapper_init_def
          plain_layer_init_def minimal_cell_def minimal_cell_class_def)
  have c: "cell_call (cell \<lparr>layer_part = \<lparr>built = False, attrs = []\<rparr>, cell = minimal_cell,
                           expects_training_arg = False\<rparr>) 3 4 [] = Inr (7, 7)"
    by (simp add: cell_call_def minimal_cell_def minimal_cell_class_def)
  show ?thesis
    using i c residual_call_adds_inputs [OF c] by simp
qed

text \<open>
  Claim C8, as the code has it. The constructor of \<open>DropoutWrapper\<close> first runs the
  constructors of the parent classes; an error they raise is raised by it, whatever the
  cell. Once they have returned the wrapper object, it raises \<open>ValueError\<close> exactly when
  the wrapped cell is an instance of \<open>lstm_v1.LSTMCell\<close>; for any other cell it returns
  the wrapper, and on the error path it returns no wrapper.
\<close>

theorem dropout_init_after_base_init:
  "(base_init a = Inl e \<longrightarrow> DropoutWrapper_init base_init a = Inl e)
   \<and> (base_init a = Inr self \<longrightarrow>
        (DropoutWrapper_init base_init a = Inl ValueError
           \<longleftrightarrow> isinstance (cell self) lstm_v1_LSTMCell)
        \<and> (\<not> isinstance (cell self) lstm_v1_LSTMCell
           \<longrightarrow> DropoutWrapper_init base_init a = Inr self)
        \<and> (isinstance (cell self) lstm_v1_LSTMCell
           \<longrightarrow> (\<forall>w. DropoutWrapper_init base_init a \<noteq> Inr w)))"
  by (simp add: DropoutWrapper_init_def)

theorem dropout_init_after_base_init_witness:
  "wrapper_args_init (lstm_cell, [], [])
     = Inr \<lparr>layer_part = \<lparr>built = False, attrs = []\<rparr>, cell = lstm_cell,
            expects_training_arg = False\<rparr>
   \<and> isinstance lstm_cell lstm_v1_LSTMCell
   \<and> DropoutWrapper_init wrapper_args_init (lstm_cell, [], []) = Inl ValueError
   \<and> wrapper_args_init (minimal_cell, [], [])
     = Inr \<lparr>layer_part = \<lparr>built = False, attrs = []\<rparr>, cell = minimal_cell,
            expects_training_arg = False\<rparr>
   \<and> \<not> isinstance minimal_cell lstm_v1_LSTMCell
   \<and> DropoutWrapper_init wrapper_args_init (minimal_cell, [], [])
     = Inr \<lparr>layer_part = \<lparr>built = False, attrs = []\<rparr>, cell = minimal_cell,
            expects_training_arg = False\<rparr>
   \<and> wrapper_args_init (lstm_cell, [], [(''units'', PInt 4)]) = Inl TypeError
   \<and> DropoutWrapper_init wrapper_args_init (lstm_cell, [], [(''units'', PInt 4)]) = Inl TypeError"
proof -
  have l: "wrapper_args_init (lstm_cell, [], [])
     = Inr \<lparr>layer_part = \<lparr>built = False, attrs = []\<rparr>, cell = lstm_cell,
            expects_training_arg = False\<rparr>"
    by (simp add: wrapper_args_init_def RNNCellWrapper_init_def plain_layer_init_def
          lstm_cell_def minimal_cell_def minimal_cell_class_def)
  have m: "wrapper_args_init (minimal_cell, [], [])
     = Inr \<lparr>layer_part = \<lparr>built = False, attrs = []\<rparr>, cell = minimal_cell,
            expects_training_arg = False\<rparr>"
    by (simp add: wrapper_args_init_def RNNCellWrapper_init_def plain_layer_init_def
          minimal_cell_def minimal_cell_class_def)
  have e: "wrapper_args_init (lstm_cell, [], [(''units'', PInt 4)]) = Inl TypeError"
    by (simp add: wrapper_args_init_def RNNCellWrapper_init_def plain_layer_init_def)
  have il: "isinstance lstm_cell lstm_v1_LSTMCell"
    by (simp add: isinstance_def lstm_cell_def minimal_cell_def minimal_cell_class_def)
  have im: "\<not> isinstance minimal_cell lstm_v1_LSTMCell"
    by (simp add: isinstance_def lstm_v1_LSTMCell_def minimal_cell_def minimal_cell_class_def)
  show ?thesis
    using l m e il im
      dropout_init_after_base_init [of wrapper_args_init "(lstm_cell, [], [])"]
      dropout_init_after_base_init [of wrapper_args_init "(minimal_cell, [], [])"]
      dropout_init_after_base_init [of wrapper_args_init "(lstm_cell, [], [(''units'', PInt 4)])"]
    by simp
qed

text \<open>
  Claim C8, as stated, says that for every cell that is not an \<open>lstm_v1.LSTMCell\<close> the
  constructor completes without raising. With a keyword argument that the parent
  constructor does not accept, it raises \<open>TypeError\<close> for such a cell.
\<close>

theorem dropout_init_other_cell_raises_counterexample:
  "\<not> isinstance minimal_cell lstm_v1_LSTMCell
   \<and> DropoutWrapper_init wrapper_args_init (minimal_cell, [], [(''units'', PInt 4)])
       = Inl TypeError"
  by (simp add: DropoutWrapper_init_def wrapper_args_init_def RNNCellWrapper_init_def
        plain_layer_init_def isinstance_def lstm_v1_LSTMCell_def minimal_cell_def
        minimal_cell_class_def)

subsection \<open>The mnist end-to-end test\<close>

text \<open>The sort on a list whose elements \<open>lt\<close> orders as a key does: the result is sorted
  and has the elements of the list, and a sorted list is left as it is.\<close>

lemma run_ascending_sorted:
  "sorted (map key (prev # xs)) \<Longrightarrow> \<forall>x\<in>set (prev # xs). \<forall>y\<in>set (prev # xs). lt x y = (key x < key y)
   \<Longrightarrow> run_ascending lt prev xs = (xs, [])"
  by (induction xs arbitrary: prev) (auto simp: not_less)

lemma count_run_sorted:
  assumes "sorted (map key xs)" and "\<forall>x\<in>set xs. \<forall>y\<in>set xs. lt x y = (key x < key y)"
  shows "count_run lt xs = (xs, [])"
proof (cases "(lt, xs)" rule: count_run.cases)
  case (3 lt' x y zs)
  then have xs: "xs = x # y # zs" by simp
  have "\<not> lt y x" using assms by (auto simp: xs)
  moreover have "run_ascending lt y zs = (zs, [])"
    using assms by (intro run_ascending_sorted [where key = key]) (auto simp: xs)
  ultimately show ?thesis by (simp add: xs)
qed auto

lemma run_ascending_parts:
  "run_ascending lt prev xs = (run, rest) \<Longrightarrow> run @ rest = xs"
  by (induction xs arbitrary: prev run rest) (auto split: if_splits prod.splits)

lemma run_descending_parts:
  "run_descending lt prev xs = (run, rest) \<Longrightarrow> run @ rest = xs"
  by (induction xs arbitrary: prev run rest) (auto split: if_splits prod.splits)

lemma run_ascending_run_sorted:
  "run_ascending lt prev xs = (run, rest)
   \<Longrightarrow> \<forall>x\<in>set (prev # xs). \<forall>y\<in>set (prev # xs). lt x y = (key x < key y)
   \<Longrightarrow> sorted (map key (prev # run))"
proof (induction xs arbitrary: prev run rest)
  case Nil
  then show ?case by simp
next
  case (Cons x xs)
  show ?case
  proof (cases "lt x prev")
    case True
    with Cons.prems show ?thesis by simp
  next
    case False
    obtain r' where r': "run_ascending lt x xs = (r', rest)" and run: "run = x # r'"
      using Cons.prems(1) False by (auto split: prod.splits)
    have "sorted (map key (x # r'))"
      using Cons.prems(2) by (intro Cons.IH [OF r']) auto
    moreover have "key prev \<le> key x"
      using False Cons.prems(2) by (auto simp: not_less)
    ultimately show ?thesis by (auto simp: run)
  qed
qed

lemma run_descending_run_sorted:
  "run_descending lt prev xs = (run, rest)
   \<Longrightarrow> \<forall>x\<in>set (prev # xs). \<forall>y\<in>set (prev # xs). lt x y = (key x < key y)
   \<Longrightarrow> sorted (rev (map key (prev # run)))"
proof (induction xs arbitrary: prev run rest)
  case Nil
  then show ?case by simp
next
  case (Cons x xs)
  show ?case
  proof (cases "lt x prev")
    case False
    with Cons.prems show ?thesis by simp
  next
    case True
    obtain r' where r': "run_descending lt x xs = (r', rest)" and run: "run = x # r'"
      using Cons.prems(1) True by (auto split: prod.splits)
    have s: "sorted (rev (map key (x # r')))"
      using Cons.prems(2) by (intro Cons.IH [OF r']) auto
    have "key x \<le> key prev"
      using True Cons.prems(2) by auto
    then have "\<forall>k\<in>set (map key (x # r')). k \<le> key prev"
      using s by (auto simp: sorted_append)
    with s show ?thesis by (simp add: run sorted_append)
  qed
qed

lemma count_run_parts:
  "count_run lt xs = (run, rest) \<Longrightarrow> set run \<union> set rest = set xs"
proof (induction lt xs rule: count_run.induct)
  case (3 lt x y zs)
  then show ?case
    by (auto split: if_splits prod.splits dest!: run_ascending_parts run_descending_parts)
qed auto

lemma count_run_run_sorted:
  assumes "count_run lt xs = (run, rest)"
      and "\<forall>x\<in>set xs. \<forall>y\<in>set xs. lt x y = (key x < key y)"
  shows "sorted (map key run)"
proof (cases "(lt, xs)" rule: count_run.cases)
  case (3 lt' x y zs)
  then have xs: "xs = x # y # zs" by simp
  show ?thesis
  proof (cases "lt y x")
    case True
    obtain r' where r': "run_descending lt y zs = (r', rest)" and run: "run = rev (x # y # r')"
      using assms(1) True by (auto simp: xs split: prod.splits)
    have s: "sorted (rev (map key (y # r')))"
      using assms(2) by (intro run_descending_run_sorted [OF r']) (auto simp: xs)
    have "key y \<le> key x" using True assms(2) by (auto simp: xs)
    then have "\<forall>k\<in>set (map key (y # r')). k \<le> key x"
      using s by (auto simp: sorted_append)
    with s show ?thesis by (simp add: run sorted_append rev_map)
  next
    case False
    obtain r' where r': "run_ascending lt y zs = (r', rest)" and run: "run = x # y # r'"
      using assms(1) False by (auto simp: xs split: prod.splits)
    have s: "sorted (map key (y # r'))"
      using assms(2) by (intro run_ascending_run_sorted [OF r']) (auto simp: xs)
    have "key x \<le> key y" using False assms(2) by (auto simp: xs not_less)
    with s show ?thesis by (auto simp: run)
  qed
qed (use assms in auto)


lemma bisect_spec:
  "sorted (map key xs) \<Longrightarrow> \<forall>x\<in>set xs. lt pivot x = (key pivot < key x)
         \<Longrightarrow> l \<le> r \<Longrightarrow> r \<le> length xs
         \<Longrightarrow> \<forall>i<l. key (xs ! i) \<le> key pivot
         \<Longrightarrow> \<forall>i. r \<le> i \<and> i < length xs \<longrightarrow> key pivot < key (xs ! i)
         \<Longrightarrow> l \<le> bisect lt pivot xs l r \<and> bisect lt pivot xs l r \<le> r
             \<and> (\<forall>i<bisect lt pivot xs l r. key (xs ! i) \<le> key pivot)
             \<and> (\<forall>i. bisect lt pivot xs l r \<le> i \<and> i < length xs
                    \<longrightarrow> key pivot < key (xs ! i))"
proof (induction lt pivot xs l r rule: bisect.induct)
  case (1 lt pivot xs l r)
  show ?case
  proof (cases "l < r")
    case False
    with "1.prems" show ?thesis by (simp add: bisect.simps)
  next
    case True
    define p where "p = l + (r - l) div 2"
    have p: "l \<le> p" "p < r" "p < length xs"
      using True "1.prems"(4) by (auto simp: p_def)
    have mono: "\<And>i j. i \<le> j \<Longrightarrow> j < length xs \<Longrightarrow> key (xs ! i) \<le> key (xs ! j)"
      using "1.prems"(1) by (auto simp: sorted_iff_nth_mono)
    have cmp: "lt pivot (xs ! p) = (key pivot < key (xs ! p))"
      using "1.prems"(2) p(3) by simp
    show ?thesis
    proof (cases "lt pivot (xs ! p)")
      case lt: True
      have hi: "\<forall>i. p \<le> i \<and> i < length xs \<longrightarrow> key pivot < key (xs ! i)"
        using lt cmp mono by (meson less_le_trans)
      have "l \<le> bisect lt pivot xs l p \<and> bisect lt pivot xs l p \<le> p
             \<and> (\<forall>i<bisect lt pivot xs l p. key (xs ! i) \<le> key pivot)
             \<and> (\<forall>i. bisect lt pivot xs l p \<le> i \<and> i < length xs
                    \<longrightarrow> key pivot < key (xs ! i))"
        using "1.IH"(1) [OF True p_def lt "1.prems"(1,2) p(1) _ "1.prems"(5) hi] p(3) by simp
      moreover have "bisect lt pivot xs l r = bisect lt pivot xs l p"
        using True lt by (subst bisect.simps) (simp add: p_def Let_def)
      ultimately show ?thesis using p(2) by auto
    next
      case nlt: False
      have lo: "\<forall>i<p + 1. key (xs ! i) \<le> key pivot"
      proof (intro allI impI)
        fix i assume "i < p + 1"
        then have "key (xs ! i) \<le> key (xs ! p)" using mono p(3) by simp
        moreover have "key (xs ! p) \<le> key pivot" using nlt cmp by (simp add: not_less)
        ultimately show "key (xs ! i) \<le> key pivot" by simp
      qed
      have "p + 1 \<le> bisect lt pivot xs (p + 1) r \<and> bisect lt pivot xs (p + 1) r \<le> r
             \<and> (\<forall>i<bisect lt pivot xs (p + 1) r. key (xs ! i) \<le> key pivot)
             \<and> (\<forall>i. bisect lt pivot xs (p + 1) r \<le> i \<and> i < length xs
                    \<longrightarrow> key pivot < key (xs ! i))"
        using "1.IH"(2) [OF True p_def nlt "1.prems"(1,2) _ "1.prems"(4) lo "1.prems"(6)] p(2)
        by simp
      moreover have "bisect lt pivot xs l r = bisect lt pivot xs (p + 1) r"
        using True nlt by (subst bisect.simps) (simp add: p_def Let_def)
      ultimately show ?thesis using p(1) by auto
    qed
  qed
qed


lemma binary_insert_set: "set (binary_insert lt xs pivot) = insert pivot (set xs)"
proof -
  have "set (take k xs) \<union> set (drop k xs) = set xs" for k
    by (metis append_take_drop_id set_append)
  then show ?thesis by (auto simp: binary_insert_def Let_def)
qed

lemma binary_insert_sorted:
  assumes "sorted (map key xs)" and "\<forall>x\<in>set xs. lt pivot x = (key pivot < key x)"
  shows "sorted (map key (binary_insert lt xs pivot))"
proof -
  define k where "k = bisect lt pivot xs 0 (length xs)"
  have "0 \<le> bisect lt pivot xs 0 (length xs) \<and> bisect lt pivot xs 0 (length xs) \<le> length xs
          \<and> (\<forall>i<bisect lt pivot xs 0 (length xs). key (xs ! i) \<le> key pivot)
          \<and> (\<forall>i. bisect lt pivot xs 0 (length xs) \<le> i \<and> i < length xs
                 \<longrightarrow> key pivot < key (xs ! i))"
    by (rule bisect_spec [where key = key]) (use assms in auto)
  then have spec: "k \<le> length xs" "\<forall>i<k. key (xs ! i) \<le> key pivot"
    "\<forall>i. k \<le> i \<and> i < length xs \<longrightarrow> key pivot < key (xs ! i)"
    by (simp_all add: k_def)
  have lo: "\<forall>x\<in>set (take k xs). key x \<le> key pivot"
    using spec(1,2) by (auto simp: in_set_conv_nth)
  have hi: "\<forall>x\<in>set (drop k xs). key pivot \<le> key x"
  proof
    fix x assume "x \<in> set (drop k xs)"
    then obtain i where "i < length (drop k xs)" and "x = drop k xs ! i"
      by (auto simp: in_set_conv_nth)
    then have "x = xs ! (k + i)" and "k + i < length xs"
      using spec(1) by auto
    with spec(3) show "key pivot \<le> key x" by (simp add: less_imp_le)
  qed
  have "sorted (map key (take k xs))" "sorted (map key (drop k xs))"
    using assms(1) by (simp_all add: take_map [symmetric] drop_map [symmetric] sorted_wrt_take sorted_wrt_drop)
  moreover have "\<forall>x\<in>set (take k xs). \<forall>y\<in>set (drop k xs). key x \<le> key y"
    using lo hi by (meson order_trans)
  ultimately have "sorted (map key (take k xs @ pivot # drop k xs))"
    using lo hi by (auto simp: sorted_append)
  then show ?thesis by (simp add: binary_insert_def k_def Let_def)
qed

lemma binarysort_sorted:
  "sorted (map key run)
   \<Longrightarrow> \<forall>x\<in>set run \<union> set rest. \<forall>y\<in>set run \<union> set rest. lt x y = (key x < key y)
   \<Longrightarrow> sorted (map key (binarysort lt run rest))
       \<and> set (binarysort lt run rest) = set run \<union> set rest"
proof (induction rest arbitrary: run)
  case Nil
  then show ?case by (simp add: binarysort_def)
next
  case (Cons x rest)
  have s: "sorted (map key (binary_insert lt run x))"
    using Cons.prems by (intro binary_insert_sorted) auto
  have "sorted (map key (binarysort lt (binary_insert lt run x) rest))
       \<and> set (binarysort lt (binary_insert lt run x) rest)
           = set (binary_insert lt run x) \<union> set rest"
    using Cons.prems(2) by (intro Cons.IH [OF s]) (auto simp: binary_insert_set)
  then show ?case by (auto simp: binarysort_def binary_insert_set)
qed

lemma list_sort_sorted:
  assumes "\<forall>x\<in>set xs. \<forall>y\<in>set xs. lt x y = (key x < key y)"
  shows "sorted (map key (list_sort lt xs)) \<and> set (list_sort lt xs) = set xs"
proof -
  obtain run rest where cr: "count_run lt xs = (run, rest)" by (cases "count_run lt xs")
  have parts: "set run \<union> set rest = set xs" by (rule count_run_parts [OF cr])
  have "sorted (map key run)" by (rule count_run_run_sorted [OF cr assms])
  then have "sorted (map key (binarysort lt run rest))
       \<and> set (binarysort lt run rest) = set run \<union> set rest"
    using assms by (intro binarysort_sorted) (auto simp: parts)
  then show ?thesis by (simp add: list_sort_def cr parts)
qed

lemma list_sort_id:
  assumes "sorted (map key xs)" and "\<forall>x\<in>set xs. \<forall>y\<in>set xs. lt x y = (key x < key y)"
  shows "list_sort lt xs = xs"
  by (simp add: list_sort_def count_run_sorted [OF assms] binarysort_def)

definition float_key :: "pyfloat \<Rightarrow> real" where
  "float_key v = (case v of Float r \<Rightarrow> r | NaN \<Rightarrow> 0)"

lemma sorted_reverse_eq_iff:
  assumes "NaN \<notin> set xs"
  shows "py_list_eq (py_objects xs) (py_sorted_reverse obj_lt (py_objects xs))
           \<longleftrightarrow> (\<forall>i. Suc i < length xs \<longrightarrow> float_le (xs ! Suc i) (xs ! i))"
proof -
  define os where "os = py_objects xs"
  define key where "key = (\<lambda>ob :: pyfloat obj. float_key (snd ob))"
  have snd_os: "map snd os = xs" and fst_os: "map fst os = [0..<length xs]"
    and len: "length os = length xs"
    by (simp_all add: os_def py_objects_def enumerate_eq_zip)
  have fl: "\<exists>r. v = Float r" if "v \<in> set xs" for v
  proof (cases v)
    case NaN
    with that assms show ?thesis by simp
  qed simp
  have vals: "snd ob \<in> set xs" if "ob \<in> set os" for ob
    using that snd_os by (metis image_eqI list.set_map)
  have cmp: "\<forall>a\<in>set os. \<forall>b\<in>set os. obj_lt a b = (key a < key b)"
  proof (intro ballI)
    fix a b assume "a \<in> set os" and "b \<in> set os"
    then obtain ra rb where "snd a = Float ra" and "snd b = Float rb"
      using vals fl by blast
    then show "obj_lt a b = (key a < key b)"
      by (simp add: obj_lt_def float_lt_def key_def float_key_def)
  qed
  have keys: "map key os = map float_key xs"
    unfolding key_def snd_os [symmetric] by (simp add: comp_def)
  have le: "float_le (xs ! j) (xs ! i) = (float_key (xs ! j) \<le> float_key (xs ! i))"
    if "i < length xs" "j < length xs" for i j
    using fl [of "xs ! i"] fl [of "xs ! j"] that
    by (auto simp: float_le_def float_key_def)
  have adj: "(\<forall>i. Suc i < length xs \<longrightarrow> float_le (xs ! Suc i) (xs ! i))
               \<longleftrightarrow> sorted (rev (map key os))"
    unfolding keys sorted_rev_iff_nth_Suc using le by (auto simp: Suc_lessD)
  have cmp_rev: "\<forall>a\<in>set (rev os). \<forall>b\<in>set (rev os). obj_lt a b = (key a < key b)"
    using cmp by simp
  show ?thesis
  proof
    assume "\<forall>i. Suc i < length xs \<longrightarrow> float_le (xs ! Suc i) (xs ! i)"
    then have "sorted (map key (rev os))" using adj by (simp add: rev_map)
    then have "list_sort obj_lt (rev os) = rev os"
      using cmp_rev by (rule list_sort_id)
    then have "py_sorted_reverse obj_lt os = os" by (simp add: py_sorted_reverse_def)
    then show "py_list_eq (py_objects xs) (py_sorted_reverse obj_lt (py_objects xs))"
      by (simp add: os_def [symmetric] py_list_eq_def list_all2_conv_all_nth obj_eq_def)
  next
    assume pass: "py_list_eq (py_objects xs) (py_sorted_reverse obj_lt (py_objects xs))"
    define S where "S = py_sorted_reverse obj_lt os"
    from pass have eq: "list_all2 obj_eq os S"
      by (simp add: os_def S_def py_list_eq_def)
    have sorted_S: "sorted (rev (map key S))" and set_S: "set S = set os"
      using list_sort_sorted [OF cmp_rev] by (simp_all add: S_def py_sorted_reverse_def rev_map)
    have "key (os ! i) = key (S ! i)" if i: "i < length os" for i
    proof -
      have oi: "os ! i \<in> set os" using i by simp
      have si: "S ! i \<in> set os"
        using i eq set_S by (metis list_all2_lengthD nth_mem)
      from eq i have "obj_eq (os ! i) (S ! i)" by (simp add: list_all2_conv_all_nth)
      then consider "fst (os ! i) = fst (S ! i)" | "float_eq (snd (os ! i)) (snd (S ! i))"
        by (auto simp: obj_eq_def)
      then show ?thesis
      proof cases
        case 1
        have "distinct (map fst os)" by (simp add: fst_os)
        then have "os ! i = S ! i"
          using 1 oi si by (metis eq_key_imp_eq_value prod.collapse)
        then show ?thesis by simp
      next
        case 2
        then show ?thesis
          using fl [OF vals [OF oi]] fl [OF vals [OF si]]
          by (auto simp: float_eq_def key_def float_key_def)
      qed
    qed
    then have "map key os = map key S"
      using eq by (auto simp: list_eq_iff_nth_eq dest: list_all2_lengthD)
    with sorted_S adj show "\<forall>i. Suc i < length xs \<longrightarrow> float_le (xs ! Suc i) (xs ! i)"
      by simp
  qed
qed

lemma mesh_device_names_eq:
  "mesh_device_names =
     [''CPU:0'', ''CPU:1'', ''CPU:2'', ''CPU:3'', ''CPU:4'', ''CPU:5'', ''CPU:6'', ''CPU:7'']"
  by (simp add: mesh_device_names_def py_range_def format_d_def digit_char_def upt_rec)

text \<open>
  Without \<open>NaN\<close> among the losses, the test passes exactly when every recorded loss is
  less than or equal to the one before it.
\<close>

lemma mnist_test_passes_iff_without_nan:
  assumes "run_losses (test_mnist_training_cpu env st) = Some train_losses"
      and "NaN \<notin> set train_losses"
  shows "run_outcome (test_mnist_training_cpu env st) = Passed
           \<longleftrightarrow> (\<forall>i. Suc i < length train_losses
                     \<longrightarrow> float_le (train_losses ! Suc i) (train_losses ! i))"
proof -
  have "run_outcome (test_mnist_training_cpu env st) = Passed
          \<longleftrightarrow> py_list_eq (py_objects train_losses)
                (py_sorted_reverse obj_lt (py_objects train_losses))"
    using assms(1)
    by (auto simp: test_mnist_training_cpu_def Let_def split: list.splits if_splits)
  then show ?thesis by (simp add: sorted_reverse_eq_iff [OF assms(2)])
qed

lemma mnist_test_passes_iff_without_nan_examples:
  "run_outcome (test_mnist_training_cpu (replay_env [Float 3, Float 2, Float 2]) initial_tf_state)
     = Passed
   \<and> run_outcome (test_mnist_training_cpu (replay_env [Float 3, Float 1, Float 2]) initial_tf_state)
     = Failed"
  by (simp add: test_mnist_training_cpu_def replay_env_def Let_def py_objects_def
        enumerate_eq_zip upt_rec py_list_eq_def py_sorted_reverse_def list_sort_def
        binarysort_def binary_insert_def bisect.simps obj_lt_def obj_eq_def float_lt_def
        float_eq_def)

text \<open>
  Claim C3 says that the test passes exactly when no recorded loss is greater than the
  one before it, so that any increase fails it. With the losses \<open>1.0\<close>, \<open>nan\<close>, \<open>2.0\<close>
  the test passes: no comparison with \<open>nan\<close> is true, so the sort finds the reversed
  list in order and returns the same objects in the same order, and the two lists are
  equal. The last loss is greater than the first, and neither adjacent pair satisfies
  the condition of the claim.
\<close>

theorem mnist_test_passes_with_nan_loss:
  "run_losses (test_mnist_training_cpu (replay_env [Float 1, NaN, Float 2]) initial_tf_state)
     = Some [Float 1, NaN, Float 2]
   \<and> run_outcome (test_mnist_training_cpu (replay_env [Float 1, NaN, Float 2]) initial_tf_state)
     = Passed
   \<and> \<not> float_le NaN (Float 1) \<and> \<not> float_le (Float 2) NaN \<and> float_lt (Float 1) (Float 2)"
  by (simp add: test_mnist_training_cpu_def replay_env_def Let_def py_objects_def
        enumerate_eq_zip upt_rec py_list_eq_def py_sorted_reverse_def list_sort_def
        binarysort_def obj_lt_def obj_eq_def float_lt_def float_le_def)

text \<open>
  Claim C7. With at least one physical CPU device, the test configures exactly eight
  logical devices on the first one and leaves the other devices as they were; the mesh
  is created from the device names \<open>CPU:0\<close> to \<open>CPU:7\<close> and the single dimension
  \<open>batch\<close> of size 8; the model, the optimizer and the training run all receive this
  mesh.
\<close>

theorem mnist_test_mesh_is_eight_cpus:
  assumes "list_physical_devices env ''CPU'' = d0 # ds"
  shows "logical_devices (run_state (test_mnist_training_cpu env st)) d0
           = Some (replicate 8 LogicalDeviceConfiguration)
         \<and> length (replicate 8 LogicalDeviceConfiguration) = 8
         \<and> (\<forall>d. d \<noteq> d0 \<longrightarrow>
               logical_devices (run_state (test_mnist_training_cpu env st)) d
                 = logical_devices st d)
         \<and> run_mesh (test_mnist_training_cpu env st)
             = Some (create_mesh env
                 [''CPU:0'', ''CPU:1'', ''CPU:2'', ''CPU:3'',
                  ''CPU:4'', ''CPU:5'', ''CPU:6'', ''CPU:7'']
                 [(''batch'', 8)])
         \<and> (let mesh = create_mesh env
                 [''CPU:0'', ''CPU:1'', ''CPU:2'', ''CPU:3'',
                  ''CPU:4'', ''CPU:5'', ''CPU:6'', ''CPU:7'']
                 [(''batch'', 8)];
                 st' = run_state (test_mnist_training_cpu env st);
                 model = get_model_with_layout_map env st'
                           (get_all_replicated_layout_map env mesh);
                 optimizer = optimizer_build env (Adam env (1 / 1000) mesh) model
             in run_losses (test_mnist_training_cpu env st)
                  = Some (train_mnist_model_batch_sharded env st' model optimizer mesh
                            3 100 64))"
  using assms
  by (simp add: test_mnist_training_cpu_def Let_def set_logical_device_configuration_def
        mesh_device_names_eq)

theorem mnist_test_mesh_is_eight_cpus_witness:
  "list_physical_devices (replay_env [Float 3, Float 2, Float 2]) ''CPU''
     = ''/physical_device:CPU:0'' # []
   \<and> logical_devices
         (run_state (test_mnist_training_cpu (replay_env [Float 3, Float 2, Float 2])
                       initial_tf_state))
         ''/physical_device:CPU:0''
       = Some (replicate 8 LogicalDeviceConfiguration)
   \<and> run_mesh (test_mnist_training_cpu (replay_env [Float 3, Float 2, Float 2]) initial_tf_state)
       = Some ([''CPU:0'', ''CPU:1'', ''CPU:2'', ''CPU:3'',
                ''CPU:4'', ''CPU:5'', ''CPU:6'', ''CPU:7''], [(''batch'', 8)])"
proof -
  have d: "list_physical_devices (replay_env [Float 3, Float 2, Float 2]) ''CPU''
             = ''/physical_device:CPU:0'' # []"
    by (simp add: replay_env_def)
  have m: "create_mesh (replay_env [Float 3, Float 2, Float 2])
             = (\<lambda>devices mesh_dims. (devices, mesh_dims))"
    by (simp add: replay_env_def)
  show ?thesis
    using d mnist_test_mesh_is_eight_cpus [OF d, of initial_tf_state]
    by (simp add: m)
qed

subsection \<open>Serialization of the configuration\<close>

lemma get_config_eq_dict_set:
  assumes "distinct (map fst (bgc (layer_part w)))"
  shows "RNNCellWrapper_get_config bgc w
           = dict_set (bgc (layer_part w)) ''cell'' (cell_entry (cell w))"
  using assms
  by (simp add: RNNCellWrapper_get_config_def dict_of_items_snoc dict_of_items_distinct)

lemma dict_pop_get_config:
  assumes "distinct (map fst (bgc (layer_part w)))"
  shows "dict_pop (RNNCellWrapper_get_config bgc w) ''cell''
           = Some (cell_entry (cell w),
                   filter (\<lambda>(k, v). k \<noteq> ''cell'') (bgc (layer_part w)))"
  using assms by (simp add: get_config_eq_dict_set dict_pop_dict_set)

lemma get_config_distinct:
  assumes "distinct (map fst (bgc (layer_part w)))"
  shows "distinct (map fst (RNNCellWrapper_get_config bgc w))"
  using assms by (simp add: get_config_eq_dict_set distinct_dict_set)

lemma from_config_result:
  assumes "dict_pop (h ! config) ''cell'' = Some (v, d)"
  shows "fst (RNNCellWrapper_from_config cls deserialize_layer h config custom_objects)
           = (case deserialize_layer v custom_objects h of
                (Inl e, h') \<Rightarrow> Inl e
              | (Inr c, h') \<Rightarrow> fst (cls c d h'))"
  using assms
  by (simp add: RNNCellWrapper_from_config_def dict_copy_def Let_def
        split: sum.splits prod.splits)

lemma from_config_of_get_config:
  assumes "h ! config = RNNCellWrapper_get_config base_get_config w"
      and "distinct (map fst (base_get_config (layer_part w)))"
  shows "fst (RNNCellWrapper_from_config cls deserialize_layer h config custom_objects)
           = (case deserialize_layer (cell_entry (cell w)) custom_objects h of
                (Inl e, h') \<Rightarrow> Inl e
              | (Inr c, h') \<Rightarrow>
                  fst (cls c (filter (\<lambda>(k, v). k \<noteq> ''cell'') (base_get_config (layer_part w)))
                         h'))"
proof -
  have "dict_pop (h ! config) ''cell''
          = Some (cell_entry (cell w),
                  filter (\<lambda>(k, v). k \<noteq> ''cell'') (base_get_config (layer_part w)))"
    using assms dict_pop_get_config [of base_get_config w] by simp
  from from_config_result [OF this] show ?thesis .
qed

lemma get_config_cong:
  assumes "base_get_config (layer_part w') = base_get_config (layer_part w)"
      and "class_name (cell_cls (cell w')) = class_name (cell_cls (cell w))"
      and "cell_get_config (cell w') = cell_get_config (cell w)"
  shows "RNNCellWrapper_get_config base_get_config w'
           = RNNCellWrapper_get_config base_get_config w"
  using assms by (simp add: RNNCellWrapper_get_config_def cell_entry_def)

lemma config_heap_eq:
  "config_heap =
     [[(''units'', PInt 4)],
      [(''name'', PStr ''wrapper''), (''trainable'', PBool True),
       (''cell'', PDict [(''class_name'', PStr ''MinimalRNNCell''),
                         (''config'', PDict [(''units'', PInt 4)])])]]"
  by (simp add: config_heap_def RNNCellWrapper_get_config_def dict_of_items_def
        plain_get_config_def named_wrapper_def cell_entry_def cell_get_config_def
        minimal_cell_def minimal_cell_class_def)

text \<open>
  Claim C2. Let \<open>config\<close> refer to the dictionary that \<open>get_config\<close> returned for the
  wrapper \<open>w\<close>. Then \<open>from_config\<close> returns what the class \<open>cls\<close> returns for the cell
  deserialized from the \<open>cell\<close> entry (the class name and the configuration of the
  wrapped cell) and, as keyword arguments, the remaining entries; an error of the
  deserializer is passed on. For \<open>_RNNCellWrapper\<close> itself: when the deserializer
  returns a cell of the same class and configuration and the parent constructor restores
  the parent configuration from those keywords, the new wrapper holds the deserialized
  cell and has the configuration of \<open>w\<close>.
\<close>

theorem from_config_get_config_roundtrip:
  assumes "config < length h"
      and "h ! config = RNNCellWrapper_get_config base_get_config w"
      and "distinct (map fst (base_get_config (layer_part w)))"
  shows "fst (RNNCellWrapper_from_config cls deserialize_layer h config custom_objects)
           = (case deserialize_layer (cell_entry (cell w)) custom_objects h of
                (Inl e, h') \<Rightarrow> Inl e
              | (Inr c, h') \<Rightarrow>
                  fst (cls c (filter (\<lambda>(k, v). k \<noteq> ''cell'') (base_get_config (layer_part w)))
                         h'))
         \<and> (fst (deserialize_layer (cell_entry (cell w)) custom_objects h) = Inr c'
            \<and> class_name (cell_cls c') = class_name (cell_cls (cell w))
            \<and> cell_get_config c' = cell_get_config (cell w)
            \<and> layer_init [] (filter (\<lambda>(k, v). k \<noteq> ''cell'') (base_get_config (layer_part w)))
                = Inr l'
            \<and> base_get_config l' = base_get_config (layer_part w)
            \<longrightarrow> (\<exists>w'. fst (RNNCellWrapper_from_config
                              (\<lambda>c kwargs s. (RNNCellWrapper_init layer_init c [] kwargs, s))
                              deserialize_layer h config custom_objects) = Inr w'
                      \<and> cell w' = c'
                      \<and> RNNCellWrapper_get_config base_get_config w'
                          = RNNCellWrapper_get_config base_get_config w))"
proof (intro conjI impI)
  show "fst (RNNCellWrapper_from_config cls deserialize_layer h config custom_objects)
           = (case deserialize_layer (cell_entry (cell w)) custom_objects h of
                (Inl e, h') \<Rightarrow> Inl e
              | (Inr c, h') \<Rightarrow>
                  fst (cls c (filter (\<lambda>(k, v). k \<noteq> ''cell'') (base_get_config (layer_part w)))
                         h'))"
    by (rule from_config_of_get_config [OF assms(2,3)])
next
  assume ext: "fst (deserialize_layer (cell_entry (cell w)) custom_objects h) = Inr c'
            \<and> class_name (cell_cls c') = class_name (cell_cls (cell w))
            \<and> cell_get_config c' = cell_get_config (cell w)
            \<and> layer_init [] (filter (\<lambda>(k, v). k \<noteq> ''cell'') (base_get_config (layer_part w)))
                = Inr l'
            \<and> base_get_config l' = base_get_config (layer_part w)"
  let ?w' = "\<lparr>layer_part = l', cell = c',
              expects_training_arg =
                (''training'' \<in> set (spec_args (call_spec (cell_cls c')))
                 \<or> spec_varkw (call_spec (cell_cls c')) \<noteq> None)\<rparr>"
  obtain h' where d: "deserialize_layer (cell_entry (cell w)) custom_objects h = (Inr c', h')"
    using ext by (cases "deserialize_layer (cell_entry (cell w)) custom_objects h") auto
  have "fst (RNNCellWrapper_from_config
               (\<lambda>c kwargs s. (RNNCellWrapper_init layer_init c [] kwargs, s))
               deserialize_layer h config custom_objects) = Inr ?w'"
    using from_config_of_get_config [OF assms(2,3),
        of "\<lambda>c kwargs s. (RNNCellWrapper_init layer_init c [] kwargs, s)" deserialize_layer
           custom_objects] ext d
    by (simp add: RNNCellWrapper_init_def Let_def)
  moreover have "RNNCellWrapper_get_config base_get_config ?w'
                   = RNNCellWrapper_get_config base_get_config w"
    using ext by (intro get_config_cong) simp_all
  ultimately show "\<exists>w'. fst (RNNCellWrapper_from_config
                              (\<lambda>c kwargs s. (RNNCellWrapper_init layer_init c [] kwargs, s))
                              deserialize_layer h config custom_objects) = Inr w'
                      \<and> cell w' = c'
                      \<and> RNNCellWrapper_get_config base_get_config w'
                          = RNNCellWrapper_get_config base_get_config w"
    by (intro exI [of _ ?w']) simp
qed

theorem from_config_get_config_roundtrip_witness:
  "1 < length config_heap
   \<and> config_heap ! 1 = RNNCellWrapper_get_config plain_get_config named_wrapper
   \<and> distinct (map fst (plain_get_config (layer_part named_wrapper)))
   \<and> minimal_deserialize (cell_entry (cell named_wrapper)) () config_heap
       = (Inr minimal_cell, config_heap)
   \<and> plain_layer_init []
        (filter (\<lambda>(k, v). k \<noteq> ''cell'') (plain_get_config (layer_part named_wrapper)))
       = Inr (layer_part named_wrapper)
   \<and> fst (RNNCellWrapper_from_config
            (\<lambda>c kwargs s. (RNNCellWrapper_init plain_layer_init c [] kwargs, s))
            minimal_deserialize config_heap 1 ()) = Inr named_wrapper
   \<and> (\<exists>w'. fst (RNNCellWrapper_from_config
                  (\<lambda>c kwargs s. (RNNCellWrapper_init plain_layer_init c [] kwargs, s))
                  minimal_deserialize config_heap 1 ()) = Inr w'
          \<and> cell w' = minimal_cell
          \<and> RNNCellWrapper_get_config plain_get_config w'
              = RNNCellWrapper_get_config plain_get_config named_wrapper)"
proof -
  have r: "1 < length config_heap" by (simp add: config_heap_def)
  have g: "config_heap ! 1 = RNNCellWrapper_get_config plain_get_config named_wrapper"
    by (simp add: config_heap_def)
  have d: "distinct (map fst (plain_get_config (layer_part named_wrapper)))"
    by (simp add: plain_get_config_def named_wrapper_def)
  have c: "minimal_deserialize (cell_entry (cell named_wrapper)) () config_heap
             = (Inr minimal_cell, config_heap)"
    by (simp add: minimal_deserialize_def cell_entry_def named_wrapper_def dict_get_def
          cell_get_config_def minimal_cell_def minimal_cell_class_def)
  have n: "cell named_wrapper = minimal_cell"
    by (simp add: named_wrapper_def)
  have f: "filter (\<lambda>(k, v). k \<noteq> ''cell'') (plain_get_config (layer_part named_wrapper))
             = [(''name'', PStr ''wrapper''), (''trainable'', PBool True)]"
    by (simp add: plain_get_config_def named_wrapper_def)
  have l: "plain_layer_init [] [(''name'', PStr ''wrapper''), (''trainable'', PBool True)]
             = Inr (layer_part named_wrapper)"
    by (simp add: plain_layer_init_def named_wrapper_def)
  have i: "RNNCellWrapper_init plain_layer_init minimal_cell []
             [(''name'', PStr ''wrapper''), (''trainable'', PBool True)] = Inr named_wrapper"
    by (simp add: RNNCellWrapper_init_def plain_layer_init_def named_wrapper_def
          minimal_cell_def minimal_cell_class_def)
  note rt = from_config_get_config_roundtrip [OF r g d,
      where cls = "\<lambda>c kwargs s. (RNNCellWrapper_init plain_layer_init c [] kwargs, s)"
        and deserialize_layer = minimal_deserialize and custom_objects = "()"
        and c' = minimal_cell and layer_init = plain_layer_init
        and l' = "layer_part named_wrapper"]
  from rt have res: "fst (RNNCellWrapper_from_config
            (\<lambda>c kwargs s. (RNNCellWrapper_init plain_layer_init c [] kwargs, s))
            minimal_deserialize config_heap 1 ()) = Inr named_wrapper"
    by (simp add: c f i)
  from rt [THEN conjunct2] have ex: "\<exists>w'. fst (RNNCellWrapper_from_config
                  (\<lambda>c kwargs s. (RNNCellWrapper_init plain_layer_init c [] kwargs, s))
                  minimal_deserialize config_heap 1 ()) = Inr w'
          \<and> cell w' = minimal_cell
          \<and> RNNCellWrapper_get_config plain_get_config w'
              = RNNCellWrapper_get_config plain_get_config named_wrapper"
    using c n f l by simp
  from r g d c f l res ex show ?thesis by simp
qed

text \<open>
  Claim C10, as the code has it. \<open>from_config\<close> pops the \<open>cell\<close> entry from its shallow
  copy and writes to no dictionary of the store itself. Without a \<open>cell\<close> entry the
  store is left as it is. Otherwise the caller's dictionary has after the call the
  entries it had before, \<open>cell\<close> among them, provided that the deserializer, called
  with the value of the \<open>cell\<close> entry, and then the class, called with the remaining
  entries, do not write to that dictionary. The values of the entries are shared with the
  copy: what the two callees do to the objects they refer to is done to the objects of
  the caller.
\<close>

theorem from_config_writes_only_its_copy:
  "(dict_pop (h ! config) ''cell'' = None \<longrightarrow>
      snd (RNNCellWrapper_from_config cls deserialize_layer h config custom_objects) = h)
   \<and> (dict_pop (h ! config) ''cell'' = Some (v, rest)
      \<and> snd (deserialize_layer v custom_objects h) ! config = h ! config
      \<and> (\<forall>c. snd (cls c rest (snd (deserialize_layer v custom_objects h))) ! config
               = snd (deserialize_layer v custom_objects h) ! config)
      \<longrightarrow> snd (RNNCellWrapper_from_config cls deserialize_layer h config custom_objects)
            ! config = h ! config
          \<and> dict_get
              (snd (RNNCellWrapper_from_config cls deserialize_layer h config custom_objects)
                 ! config) ''cell'' = Some v)"
proof (intro conjI impI)
  assume "dict_pop (h ! config) ''cell'' = None"
  then show "snd (RNNCellWrapper_from_config cls deserialize_layer h config custom_objects) = h"
    by (simp add: RNNCellWrapper_from_config_def dict_copy_def)
next
  assume a: "dict_pop (h ! config) ''cell'' = Some (v, rest)
      \<and> snd (deserialize_layer v custom_objects h) ! config = h ! config
      \<and> (\<forall>c. snd (cls c rest (snd (deserialize_layer v custom_objects h))) ! config
               = snd (deserialize_layer v custom_objects h) ! config)"
  then show same: "snd (RNNCellWrapper_from_config cls deserialize_layer h config custom_objects)
            ! config = h ! config"
    by (auto simp: RNNCellWrapper_from_config_def dict_copy_def split: sum.splits prod.splits)
  have "dict_get (h ! config) ''cell'' = Some v"
    using a by (simp add: dict_pop_lookup)
  with same show "dict_get
              (snd (RNNCellWrapper_from_config cls deserialize_layer h config custom_objects)
                 ! config) ''cell'' = Some v"
    by simp
qed

theorem from_config_writes_only_its_copy_witness:
  "dict_pop (config_heap ! 0) ''cell'' = None
   \<and> RNNCellWrapper_from_config wrapper_class minimal_deserialize config_heap 0 ()
       = (Inl KeyError, config_heap)
   \<and> dict_pop (stacked_store ! 0) ''cell'' = Some (PRef 1, [(''name'', PStr ''wrapper'')])
   \<and> snd (popping_deserialize (PRef 1) () stacked_store) ! 0 = stacked_store ! 0
   \<and> snd (RNNCellWrapper_from_config wrapper_class popping_deserialize stacked_store 0 ()) ! 0
       = [(''name'', PStr ''wrapper''), (''cell'', PRef 1)]"
proof -
  have p: "dict_pop (stacked_store ! 0) ''cell'' = Some (PRef 1, [(''name'', PStr ''wrapper'')])"
    by (simp add: stacked_store_def)
  have d: "snd (popping_deserialize (PRef 1) () stacked_store) ! 0 = stacked_store ! 0"
    by (simp add: popping_deserialize_def stacked_store_def dict_get_def)
  have c: "\<forall>c. snd (wrapper_class c [(''name'', PStr ''wrapper'')]
                      (snd (popping_deserialize (PRef 1) () stacked_store))) ! 0
               = snd (popping_deserialize (PRef 1) () stacked_store) ! 0"
    by (simp add: wrapper_class_def)
  from from_config_writes_only_its_copy [of stacked_store 0 wrapper_class popping_deserialize
      "()" "PRef 1" "[(''name'', PStr ''wrapper'')]"] p d c
  have s: "snd (RNNCellWrapper_from_config wrapper_class popping_deserialize stacked_store 0 ())
             ! 0 = stacked_store ! 0"
    by blast
  have n: "dict_pop (config_heap ! 0) ''cell'' = None"
    by (simp add: config_heap_def)
  have k: "fst (RNNCellWrapper_from_config wrapper_class minimal_deserialize config_heap 0 ())
             = Inl KeyError"
    using n by (simp add: RNNCellWrapper_from_config_def dict_copy_def)
  from from_config_writes_only_its_copy [of config_heap 0 wrapper_class minimal_deserialize
      "()"] n
  have "snd (RNNCellWrapper_from_config wrapper_class minimal_deserialize config_heap 0 ())
          = config_heap"
    by blast
  with k have e: "RNNCellWrapper_from_config wrapper_class minimal_deserialize config_heap 0 ()
                    = (Inl KeyError, config_heap)"
    by (simp add: prod_eq_iff)
  from p d s n e show ?thesis by (simp add: stacked_store_def)
qed

text \<open>
  Claim C10, as stated, says that the caller's dictionary is unchanged after the call.
  With a deserializer that pops an entry from the configuration it is given, the nested
  configuration that the caller's \<open>cell\<close> entry leads to has lost its \<open>cells\<close> entry
  after the call: the caller's dictionary, read with what it refers to, is not what it
  was.
\<close>

theorem from_config_changes_nested_config_counterexample:
  "deref 3 stacked_store (PRef 0)
     = PDict [(''name'', PStr ''wrapper''),
              (''cell'', PDict [(''class_name'', PStr ''StackedRNNCells''),
                                (''config'', PDict [(''name'', PStr ''stacked''),
                                                    (''cells'', PList [])])])]
   \<and> deref 3 (snd (RNNCellWrapper_from_config wrapper_class popping_deserialize
                      stacked_store 0 ())) (PRef 0)
     = PDict [(''name'', PStr ''wrapper''),
              (''cell'', PDict [(''class_name'', PStr ''StackedRNNCells''),
                                (''config'', PDict [(''name'', PStr ''stacked'')])])]"
  by (simp add: RNNCellWrapper_from_config_def dict_copy_def stacked_store_def
        popping_deserialize_def wrapper_class_def dict_get_def numeral_3_eq_3)

end
